theory Spec2Isabelle
  imports Complex_Main "HOL-Library.Word" "HOL-Library.Multiset"
begin

chapter \<open>The model\<close>

section \<open>Weights\<close>

text \<open>
  The arcs of \<^verbatim>\<open>fsa.cpp\<close> are \<^verbatim>\<open>fst::StdArc\<close>, whose weight is the tropical weight:
  a \<^verbatim>\<open>float\<close> with \<open>+\<infinity>\<close> as the semiring zero and \<open>0.0\<close> as the semiring one.
  \<^verbatim>\<open>fsa.cpp\<close> itself never adds or compares two weights: it stores the caller's
  weights, writes the constant \<open>0.0\<close> and tests against \<^verbatim>\<open>TropicalWeight::Zero()\<close>.
  A weight is read here as a real number or infinity (no rounding, no NaN).
\<close>

datatype TropicalWeight = Finite real | Infinity

definition Zero :: TropicalWeight where
  "Zero = Infinity"

definition One :: TropicalWeight where
  "One = Finite 0"

section \<open>The declarations of fsa.h\<close>

text \<open>
  \<^verbatim>\<open>enum fsa_type { STDVECTOR, RMEPSILON, INTERSECTION, DIFFERENCE, COMPACT, CONST }\<close>:
  the field that holds it is an \<^verbatim>\<open>unsigned char\<close>, so a tag is a byte and the six
  enumerators are the bytes 0 to 5.
\<close>

definition STDVECTOR :: "8 word" where "STDVECTOR = 0"

definition RMEPSILON :: "8 word" where "RMEPSILON = 1"

definition INTERSECTION :: "8 word" where "INTERSECTION = 2"

definition DIFFERENCE :: "8 word" where "DIFFERENCE = 3"

definition COMPACT :: "8 word" where "COMPACT = 4"

definition CONST' :: "8 word" where "CONST' = 5"

datatype vec_type = CHAR' | INT' | ARC'

text \<open>\<^verbatim>\<open>struct fsa_arc { int from_state, to_state, label; float weight; }\<close>\<close>

record fsa_arc =
  from_state :: int
  to_state :: int
  label :: int
  weight :: TropicalWeight

text \<open>
  \<^verbatim>\<open>fst::StdArc\<close>, built in \<^verbatim>\<open>fsa_from_arc_list\<close> as
  \<^verbatim>\<open>StdArc(label, label, weight, to_state)\<close>.
\<close>

record StdArc =
  ilabel :: int
  olabel :: int
  weight :: TropicalWeight
  nextstate :: int

text \<open>
  What every representation behind \<^verbatim>\<open>fst::Fst<fst::StdArc>\<close> holds: a start state
  (\<^verbatim>\<open>kNoStateId\<close>, that is \<open>-1\<close>, while none is set) and, for the states
  \<open>0 .. NumStates - 1\<close>, a final weight and the arcs in their stored order.
\<close>

record VectorState =
  final :: TropicalWeight
  arcs :: "StdArc list"

record StdFst =
  start :: int
  states :: "VectorState list"

definition kNoStateId :: int where
  "kNoStateId = -1"

text \<open>
  \<^verbatim>\<open>struct fsa_t { unsigned char type; void *fsa; }\<close>: the pointer is \<open>None\<close> when it
  is null, and otherwise stands for the automaton it points to.
\<close>

record fsa_t =
  type :: "8 word"
  fsa :: "StdFst option"

text \<open>
  \<^verbatim>\<open>struct vec_t { unsigned char type; void *vec_obj, *first; size_t length; }\<close>: the
  \<open>length\<close> elements that start at \<open>first\<close> are the list \<open>first\<close>.
\<close>

record 'a vec_t =
  vtype :: vec_type
  first :: "'a list"

text \<open>
  The points at which the C++ leaves defined behaviour: a member call through a null
  pointer, and an index past the end of a \<^verbatim>\<open>std::vector\<close>.
\<close>

datatype fault = NullDereference | OutOfBoundsAccess

section \<open>The library's mutable automaton\<close>

text \<open>
  The operations of \<^verbatim>\<open>fst::StdVectorFst\<close> that \<^verbatim>\<open>fsa_from_arc_list\<close> calls. A new
  automaton has no state and no start state; \<^verbatim>\<open>AddState\<close> appends a state that is
  not final (final weight \<open>Zero\<close>) and has no arc; \<^verbatim>\<open>AddArc\<close> and \<^verbatim>\<open>SetFinal\<close>
  index the vector of states with the state id unchecked; \<^verbatim>\<open>SetStart\<close> stores the
  id; the target of an arc is stored, never looked up.
\<close>

definition StdVectorFst :: StdFst where
  "StdVectorFst = \<lparr>start = kNoStateId, states = []\<rparr>"

definition NumStates :: "StdFst \<Rightarrow> int" where
  "NumStates f = int (length (states f))"

definition AddState :: "StdFst \<Rightarrow> StdFst" where
  "AddState f = f\<lparr>states := states f @ [\<lparr>final = Zero, arcs = []\<rparr>]\<rparr>"

definition AddArc :: "int \<Rightarrow> StdArc \<Rightarrow> StdFst \<Rightarrow> fault + StdFst" where
  "AddArc s a f =
     (if 0 \<le> s \<and> s < NumStates f
      then Inr (f\<lparr>states := (states f)[nat s := (states f ! nat s)\<lparr>arcs := arcs (states f ! nat s) @ [a]\<rparr>]\<rparr>)
      else Inl OutOfBoundsAccess)"

definition SetFinal :: "int \<Rightarrow> TropicalWeight \<Rightarrow> StdFst \<Rightarrow> fault + StdFst" where
  "SetFinal s w f =
     (if 0 \<le> s \<and> s < NumStates f
      then Inr (f\<lparr>states := (states f)[nat s := (states f ! nat s)\<lparr>final := w\<rparr>]\<rparr>)
      else Inl OutOfBoundsAccess)"

definition SetStart :: "int \<Rightarrow> StdFst \<Rightarrow> StdFst" where
  "SetStart s f = f\<lparr>start := s\<rparr>"

text \<open>
  \<^verbatim>\<open>fst::ArcSort(&mut, fst::ILabelCompare<fst::StdArc>())\<close> sorts the arcs of every
  state by input label. The library's sort need not keep the order of arcs with equal
  labels; the insertion order is kept here, and nothing below depends on it.
\<close>

definition ArcSort :: "StdFst \<Rightarrow> StdFst" where
  "ArcSort f = f\<lparr>states := map (\<lambda>s. s\<lparr>arcs := sort_key ilabel (arcs s)\<rparr>) (states f)\<rparr>"

text \<open>
  \<^verbatim>\<open>fst::CompactFst<fst::StdArc, fst::AcceptorCompactor<fst::StdArc> >(f)\<close> keeps of every
  arc the triple of input label, weight and target, and reads it back as an arc whose
  output label is the input label. Start state, states and final weights are kept.
\<close>

definition Compact :: "StdArc \<Rightarrow> (int \<times> TropicalWeight) \<times> int" where
  "Compact a = ((ilabel a, StdArc.weight a), nextstate a)"

definition Expand :: "(int \<times> TropicalWeight) \<times> int \<Rightarrow> StdArc" where
  "Expand p = \<lparr>ilabel = fst (fst p), olabel = fst (fst p), weight = snd (fst p), nextstate = snd p\<rparr>"

definition CompactFst :: "StdFst \<Rightarrow> StdFst" where
  "CompactFst f = f\<lparr>states := map (\<lambda>s. s\<lparr>arcs := map (Expand \<circ> Compact) (arcs s)\<rparr>) (states f)\<rparr>"

section \<open>fsa.cpp\<close>

text \<open>
  \<^verbatim>\<open>reinterpret\<close>: the switch over the tag. Each of the six cases returns the pointer
  of the handle, cast; any other tag falls through to \<^verbatim>\<open>return NULL\<close>.
\<close>

definition reinterpret :: "fsa_t \<Rightarrow> StdFst option" where
  "reinterpret wrapper =
     (if type wrapper = STDVECTOR then fsa wrapper
      else if type wrapper = RMEPSILON then fsa wrapper
      else if type wrapper = INTERSECTION then fsa wrapper
      else if type wrapper = DIFFERENCE then fsa wrapper
      else if type wrapper = COMPACT then fsa wrapper
      else if type wrapper = CONST' then fsa wrapper
      else None)"

text \<open>
  \<^verbatim>\<open>fsa_from_string\<close>: the bytes go to the library's \<^verbatim>\<open>CompactFst::Read\<close>, a
  parameter here, which returns a null pointer for a stream it rejects. Whatever it
  returns is wrapped under the tag \<^verbatim>\<open>COMPACT\<close>.
\<close>

definition fsa_from_string :: "(8 word list \<Rightarrow> StdFst option) \<Rightarrow> 8 word vec_t \<Rightarrow> fsa_t" where
  "fsa_from_string Read binary = \<lparr>type = COMPACT, fsa = Read (first binary)\<rparr>"

text \<open>
  \<^verbatim>\<open>fsa_to_string\<close>: the automaton behind the handle is copied into a compact
  automaton, which the library's \<^verbatim>\<open>Write\<close>, a parameter here, turns into bytes.
\<close>

definition fsa_to_string :: "(StdFst \<Rightarrow> 8 word list) \<Rightarrow> fsa_t \<Rightarrow> fault + 8 word vec_t" where
  "fsa_to_string Write f =
     (case reinterpret f of
        None \<Rightarrow> Inl NullDereference
      | Some g \<Rightarrow> Inr \<lparr>vtype = CHAR', first = Write (CompactFst g)\<rparr>)"

text \<open>
  \<^verbatim>\<open>fsa_from_arc_list\<close>: the three loops, in the order of the source. An entry of the
  arc list becomes \<^verbatim>\<open>fst::StdArc(arcs[i].label, arcs[i].label, arcs[i].weight, arcs[i].to_state)\<close>.
\<close>

definition mk_arc :: "fsa_arc \<Rightarrow> StdArc" where
  "mk_arc a = \<lparr>ilabel = label a, olabel = label a, weight = fsa_arc.weight a, nextstate = to_state a\<rparr>"

fun add_states :: "nat \<Rightarrow> StdFst \<Rightarrow> StdFst" where
  "add_states 0 mut = mut"
| "add_states (Suc k) mut = add_states k (AddState mut)"

fun add_arcs :: "fsa_arc list \<Rightarrow> StdFst \<Rightarrow> fault + StdFst" where
  "add_arcs [] mut = Inr mut"
| "add_arcs (a # as) mut =
     (case AddArc (from_state a) (mk_arc a) mut of
        Inl e \<Rightarrow> Inl e
      | Inr mut' \<Rightarrow> add_arcs as mut')"

fun set_finals :: "int list \<Rightarrow> StdFst \<Rightarrow> fault + StdFst" where
  "set_finals [] mut = Inr mut"
| "set_finals (s # ss) mut =
     (case SetFinal s (Finite 0) mut of
        Inl e \<Rightarrow> Inl e
      | Inr mut' \<Rightarrow> set_finals ss mut')"

definition fsa_from_arc_list :: "int \<Rightarrow> int vec_t \<Rightarrow> fsa_arc vec_t \<Rightarrow> fault + fsa_t" where
  "fsa_from_arc_list n final_states arc_list =
     (case add_arcs (first arc_list) (add_states (nat n) StdVectorFst) of
        Inl e \<Rightarrow> Inl e
      | Inr mut1 \<Rightarrow>
          (case set_finals (first final_states) mut1 of
             Inl e \<Rightarrow> Inl e
           | Inr mut2 \<Rightarrow>
               Inr \<lparr>type = COMPACT, fsa = Some (CompactFst (ArcSort (SetStart 0 mut2)))\<rparr>))"

text \<open>
  \<^verbatim>\<open>fsa_to_arc_list\<close>: the states in ascending order, and for each state its arcs in
  their stored order.
\<close>

definition state_arcs :: "int \<Rightarrow> VectorState \<Rightarrow> fsa_arc list" where
  "state_arcs s st =
     map (\<lambda>a. \<lparr>from_state = s, to_state = nextstate a, label = ilabel a, weight = StdArc.weight a\<rparr>) (arcs st)"

definition arc_list_of :: "StdFst \<Rightarrow> fsa_arc list" where
  "arc_list_of f = concat (map (\<lambda>(i, st). state_arcs (int i) st) (enumerate 0 (states f)))"

definition fsa_to_arc_list :: "fsa_t \<Rightarrow> fault + fsa_arc vec_t" where
  "fsa_to_arc_list wrapper =
     (case reinterpret wrapper of
        None \<Rightarrow> Inl NullDereference
      | Some f \<Rightarrow> Inr \<lparr>vtype = ARC', first = arc_list_of f\<rparr>)"

text \<open>\<^verbatim>\<open>fsa_initial_state\<close>: \<^verbatim>\<open>reinterpret(fsa)->Start()\<close>.\<close>

definition fsa_initial_state :: "fsa_t \<Rightarrow> fault + int" where
  "fsa_initial_state h =
     (case reinterpret h of
        None \<Rightarrow> Inl NullDereference
      | Some f \<Rightarrow> Inr (start f))"

text \<open>
  \<^verbatim>\<open>fsa_final_states\<close>: the states, in ascending order, whose final weight is not
  \<^verbatim>\<open>TropicalWeight::Zero()\<close>.
\<close>

definition final_states_of :: "StdFst \<Rightarrow> int list" where
  "final_states_of f =
     map (\<lambda>(i, st). int i) (filter (\<lambda>(i, st). final st \<noteq> Zero) (enumerate 0 (states f)))"

definition fsa_final_states :: "fsa_t \<Rightarrow> fault + int vec_t" where
  "fsa_final_states h =
     (case reinterpret h of
        None \<Rightarrow> Inl NullDereference
      | Some f \<Rightarrow> Inr \<lparr>vtype = INT', first = final_states_of f\<rparr>)"

text \<open>
  \<^verbatim>\<open>fsa_n_best\<close>, \<^verbatim>\<open>fsa_intersect\<close> and \<^verbatim>\<open>fsa_difference\<close> pass the automata
  behind their handles to algorithms of the library, which are parameters here
  (\<^verbatim>\<open>fst::ShortestPath\<close>, \<^verbatim>\<open>fst::RmEpsilon\<close>, \<^verbatim>\<open>fst::Intersect\<close>, the
  \<^verbatim>\<open>fst::RmWeightMapper\<close> map, \<^verbatim>\<open>fst::DeterminizeFst\<close>, \<^verbatim>\<open>fst::DifferenceFst\<close>),
  copy the result into a compact automaton and wrap it under the tag \<^verbatim>\<open>COMPACT\<close>.
\<close>

definition fsa_n_best ::
  "(StdFst \<Rightarrow> int \<Rightarrow> StdFst) \<Rightarrow> (StdFst \<Rightarrow> StdFst) \<Rightarrow> fsa_t \<Rightarrow> int \<Rightarrow> fault + fsa_t" where
  "fsa_n_best ShortestPath RmEpsilon h n =
     (case reinterpret h of
        None \<Rightarrow> Inl NullDereference
      | Some f \<Rightarrow> Inr \<lparr>type = COMPACT, fsa = Some (CompactFst (RmEpsilon (ShortestPath f n)))\<rparr>)"

definition fsa_intersect :: "(StdFst \<Rightarrow> StdFst \<Rightarrow> StdFst) \<Rightarrow> fsa_t \<Rightarrow> fsa_t \<Rightarrow> fault + fsa_t" where
  "fsa_intersect Intersect a b =
     (case reinterpret a of
        None \<Rightarrow> Inl NullDereference
      | Some x \<Rightarrow>
          (case reinterpret b of
             None \<Rightarrow> Inl NullDereference
           | Some y \<Rightarrow> Inr \<lparr>type = COMPACT, fsa = Some (CompactFst (Intersect x y))\<rparr>))"

definition fsa_difference ::
  "(StdFst \<Rightarrow> StdFst) \<Rightarrow> (StdFst \<Rightarrow> StdFst) \<Rightarrow> (StdFst \<Rightarrow> StdFst \<Rightarrow> StdFst) \<Rightarrow>
   fsa_t \<Rightarrow> fsa_t \<Rightarrow> fault + fsa_t" where
  "fsa_difference RmWeight Determinize Difference a b =
     (case reinterpret b of
        None \<Rightarrow> Inl NullDereference
      | Some y \<Rightarrow>
          (case reinterpret a of
             None \<Rightarrow> Inl NullDereference
           | Some x \<Rightarrow>
               Inr \<lparr>type = COMPACT, fsa = Some (CompactFst (Difference x (Determinize (RmWeight y))))\<rparr>))"

section \<open>Reading an automaton\<close>

text \<open>
  The final weight and the arcs of a state id; an id that is no state of the automaton
  has no arc and is not final.
\<close>

definition final_weight :: "StdFst \<Rightarrow> int \<Rightarrow> TropicalWeight" where
  "final_weight f q = (if 0 \<le> q \<and> q < NumStates f then final (states f ! nat q) else Zero)"

definition arcs_from :: "StdFst \<Rightarrow> int \<Rightarrow> StdArc list" where
  "arcs_from f q = (if 0 \<le> q \<and> q < NumStates f then arcs (states f ! nat q) else [])"

section \<open>The automaton that the construction returns\<close>

text \<open>
  The arcs of the input list that leave state \<open>i\<close>, sorted by label, and the automaton
  with \<open>k\<close> states that holds them: the closed form of what \<^verbatim>\<open>fsa_from_arc_list\<close>
  builds.
\<close>

definition block :: "fsa_arc list \<Rightarrow> nat \<Rightarrow> fsa_arc list" where
  "block as i = sort_key label (filter (\<lambda>a. from_state a = int i) as)"

definition built :: "nat \<Rightarrow> int list \<Rightarrow> fsa_arc list \<Rightarrow> StdFst" where
  "built k ss as = \<lparr>start = 0, states = map (\<lambda>i.
      \<lparr>final = (if int i \<in> set ss then Finite 0 else Zero),
       arcs = map (Expand \<circ> Compact) (sort_key ilabel (map mk_arc (filter (\<lambda>a. from_state a = int i) as)))\<rparr>) [0..<k]\<rparr>"

section \<open>The weight algebra of the specification\<close>

text \<open>
  Modelled from the spec: the weight algebra of section 4.1, which the library implements
  and \<^verbatim>\<open>fsa.cpp\<close> never calls itself. \<open>extend\<close> is addition, with infinity absorbing;
  \<open>combine\<close> is the minimum, with infinity neutral; \<open>zero()\<close> and \<open>one()\<close> are \<open>Zero\<close>
  and \<open>One\<close> above.
\<close>

fun extend :: "TropicalWeight \<Rightarrow> TropicalWeight \<Rightarrow> TropicalWeight" where
  "extend (Finite a) (Finite b) = Finite (a + b)"
| "extend _ _ = Infinity"

fun combine :: "TropicalWeight \<Rightarrow> TropicalWeight \<Rightarrow> TropicalWeight" where
  "combine (Finite a) (Finite b) = Finite (min a b)"
| "combine Infinity w = w"
| "combine w Infinity = w"

definition is_zero :: "TropicalWeight \<Rightarrow> bool" where
  "is_zero w = (w = Infinity)"

text \<open>The best of a list of alternatives: \<open>combine\<close> over the list, \<open>Zero\<close> when it is empty.\<close>

definition wsum :: "TropicalWeight list \<Rightarrow> TropicalWeight" where
  "wsum ws = foldr combine ws Zero"

section \<open>Accepted strings and their weights\<close>







section \<open>Lazy discovery of states\<close>

text \<open>
  Modelled from the spec: the discovery of product states of sections 4.4 and 4.5 (and of
  subsets in the determinization), which is code of the library. States are discovered
  from the start state on; a state gets the next dense id, its position in \<open>done\<close>, the
  first time it is taken from the queue, which is the order of first reference; a state
  that nothing refers to is never created. The search need not end on an arbitrary
  successor function, so not returning is the value \<open>None\<close>; that it does return on the
  three successor functions below is proved.
\<close>

partial_function (option) explore :: "('a \<Rightarrow> 'a list) \<Rightarrow> 'a list \<Rightarrow> 'a list \<Rightarrow> 'a list option" where
  "explore succs todo done =
     (case todo of
        [] \<Rightarrow> Some done
      | t # ts \<Rightarrow>
          if t \<in> set done then explore succs ts done
          else explore succs (ts @ succs t) (done @ [t]))"

text \<open>The dense id of a discovered state: its position in the list of discovered states.\<close>

fun index_of :: "'a list \<Rightarrow> 'a \<Rightarrow> nat" where
  "index_of [] x = 0"
| "index_of (y # ys) x = (if y = x then 0 else Suc (index_of ys x))"

section \<open>The intersection engine of the specification\<close>

text \<open>
  Modelled from the spec: the merge-join of section 4.4 over the label-sorted arcs of a
  state of A and of a state of B, which is code of the library (\<^verbatim>\<open>fst::Intersect\<close>). It
  walks both lists in step and emits, for every arc of A, its pairs with the run of arcs
  of B that carry the same label.
\<close>

fun merge_join :: "StdArc list \<Rightarrow> StdArc list \<Rightarrow> (StdArc \<times> StdArc) list" where
  "merge_join [] ys = []"
| "merge_join (x # xs) [] = []"
| "merge_join (x # xs) (y # ys) =
     (if ilabel x < ilabel y then merge_join xs (y # ys)
      else if ilabel y < ilabel x then merge_join (x # xs) ys
      else map (Pair x) (takeWhile (\<lambda>y'. ilabel y' = ilabel x) (y # ys)) @ merge_join xs (y # ys))"

text \<open>
  Modelled from the spec: the product construction of section 4.4 (\<^verbatim>\<open>fst::Intersect\<close> of
  the library). The states are the pairs discovered from the pair of the start states; a
  pair has one arc for every matching pair of arcs, to the pair of their targets, with
  the \<open>extend\<close> of their weights; its final weight is the \<open>extend\<close> of the final weights
  of its components, so it is final exactly when both are.
\<close>

definition pair_succs :: "StdFst \<Rightarrow> StdFst \<Rightarrow> int \<times> int \<Rightarrow> (int \<times> int) list" where
  "pair_succs A B pq =
     map (\<lambda>(x, y). (nextstate x, nextstate y)) (merge_join (arcs_from A (fst pq)) (arcs_from B (snd pq)))"

definition pair_state :: "StdFst \<Rightarrow> StdFst \<Rightarrow> (int \<times> int) list \<Rightarrow> int \<times> int \<Rightarrow> VectorState" where
  "pair_state A B ps pq =
     \<lparr>final = extend (final_weight A (fst pq)) (final_weight B (snd pq)),
      arcs = map (\<lambda>(x, y). \<lparr>ilabel = ilabel x, olabel = ilabel x,
                            weight = extend (StdArc.weight x) (StdArc.weight y),
                            nextstate = int (index_of ps (nextstate x, nextstate y))\<rparr>)
               (merge_join (arcs_from A (fst pq)) (arcs_from B (snd pq)))\<rparr>"

definition product :: "StdFst \<Rightarrow> StdFst \<Rightarrow> (int \<times> int) list \<Rightarrow> StdFst" where
  "product A B ps = \<lparr>start = 0, states = map (pair_state A B ps) ps\<rparr>"

definition Intersect :: "StdFst \<Rightarrow> StdFst \<Rightarrow> StdFst" where
  "Intersect A B =
     (case explore (pair_succs A B) [(start A, start B)] [] of
        None \<Rightarrow> StdVectorFst
      | Some ps \<Rightarrow> product A B ps)"

section \<open>The difference engine of the specification\<close>

text \<open>
  Modelled from the spec: step (1) of section 4.5 (the \<^verbatim>\<open>fst::RmWeightMapper\<close> map of the
  library): every arc weight becomes \<open>one()\<close>, and so does the final weight of every final
  state; a state that is not final stays so.
\<close>

definition RmWeight :: "StdFst \<Rightarrow> StdFst" where
  "RmWeight B = B\<lparr>states := map (\<lambda>st. \<lparr>final = (if final st = Zero then Zero else One),
                                         arcs = map (\<lambda>a. a\<lparr>weight := One\<rparr>) (arcs st)\<rparr>) (states B)\<rparr>"

text \<open>
  Modelled from the spec: step (2) of section 4.5, the subset construction
  (\<^verbatim>\<open>fst::DeterminizeFst\<close> of the library) on an automaton whose weights are all \<open>one()\<close>.
  A state is a set of states of B, kept as a sorted list without repetition; it has one
  arc for every label on an arc out of one of its members, to the union of the targets
  of the arcs with that label; it is final when one of its members is. A label that no
  member has an arc for has no arc: the reject state is not created.
\<close>

definition subset_labels :: "StdFst \<Rightarrow> int list \<Rightarrow> int list" where
  "subset_labels B S = sort (remdups (concat (map (\<lambda>q. map ilabel (arcs_from B q)) S)))"

definition subset_target :: "StdFst \<Rightarrow> int list \<Rightarrow> int \<Rightarrow> int list" where
  "subset_target B S l =
     sort (remdups (concat (map (\<lambda>q. map nextstate (filter (\<lambda>a. ilabel a = l) (arcs_from B q))) S)))"

definition subset_succs :: "StdFst \<Rightarrow> int list \<Rightarrow> int list list" where
  "subset_succs B S = map (subset_target B S) (subset_labels B S)"

definition subset_state :: "StdFst \<Rightarrow> int list list \<Rightarrow> int list \<Rightarrow> VectorState" where
  "subset_state B Ss S =
     \<lparr>final = (if list_ex (\<lambda>q. final_weight B q \<noteq> Zero) S then One else Zero),
      arcs = map (\<lambda>l. \<lparr>ilabel = l, olabel = l, weight = One,
                       nextstate = int (index_of Ss (subset_target B S l))\<rparr>) (subset_labels B S)\<rparr>"

definition subset_fst :: "StdFst \<Rightarrow> int list list \<Rightarrow> StdFst" where
  "subset_fst B Ss = \<lparr>start = 0, states = map (subset_state B Ss) Ss\<rparr>"

definition Determinize :: "StdFst \<Rightarrow> StdFst" where
  "Determinize B =
     (case explore (subset_succs B) [[start B]] [] of
        None \<Rightarrow> StdVectorFst
      | Some Ss \<Rightarrow> subset_fst B Ss)"

text \<open>
  Modelled from the spec: step (3) of section 4.5, the product of A with the determinized
  B (\<^verbatim>\<open>fst::DifferenceFst\<close> of the library). A state pairs a state of A with where the
  deterministic automaton is: one of its states, or \<open>None\<close> once the input has fallen off
  its language (no arc for a label read). Every arc of A is followed, with the weight it
  has in A. A pair is final, with the final weight of A, exactly when its state of A is
  final and the deterministic automaton has fallen off or is in a state that is not
  final.
\<close>

fun diff_step :: "StdFst \<Rightarrow> int option \<Rightarrow> int \<Rightarrow> int option" where
  "diff_step D None l = None"
| "diff_step D (Some d) l =
     (case find (\<lambda>y. ilabel y = l) (arcs_from D d) of
        None \<Rightarrow> None
      | Some y \<Rightarrow> Some (nextstate y))"

definition diff_succs :: "StdFst \<Rightarrow> StdFst \<Rightarrow> int \<times> int option \<Rightarrow> (int \<times> int option) list" where
  "diff_succs A D pd = map (\<lambda>x. (nextstate x, diff_step D (snd pd) (ilabel x))) (arcs_from A (fst pd))"

definition diff_state ::
  "StdFst \<Rightarrow> StdFst \<Rightarrow> (int \<times> int option) list \<Rightarrow> int \<times> int option \<Rightarrow> VectorState" where
  "diff_state A D ps pd =
     \<lparr>final = (case snd pd of
                 None \<Rightarrow> final_weight A (fst pd)
               | Some d \<Rightarrow> if final_weight D d = Zero then final_weight A (fst pd) else Zero),
      arcs = map (\<lambda>x. \<lparr>ilabel = ilabel x, olabel = ilabel x, weight = StdArc.weight x,
                       nextstate = int (index_of ps (nextstate x, diff_step D (snd pd) (ilabel x)))\<rparr>)
               (arcs_from A (fst pd))\<rparr>"

definition diff_fst :: "StdFst \<Rightarrow> StdFst \<Rightarrow> (int \<times> int option) list \<Rightarrow> StdFst" where
  "diff_fst A D ps = \<lparr>start = 0, states = map (diff_state A D ps) ps\<rparr>"

definition Difference :: "StdFst \<Rightarrow> StdFst \<Rightarrow> StdFst" where
  "Difference A D =
     (case explore (diff_succs A D) [(start A, Some (start D))] [] of
        None \<Rightarrow> StdVectorFst
      | Some ps \<Rightarrow> diff_fst A D ps)"

section \<open>The epsilon removal of the specification\<close>

text \<open>
  Modelled from the spec: the epsilon removal that section 4.6 runs after the search
  (\<^verbatim>\<open>fst::RmEpsilon\<close> of the library). For a state \<open>q\<close>, \<open>eps_dist f q\<close> gives every state
  the least weight of a path of arcs with label 0 from \<open>q\<close> to it (\<open>Zero\<close> when there is
  none), found by relaxing every such arc once per state of the automaton. The new arcs
  of \<open>q\<close> are the arcs with a label other than 0 of the states so reached, their weight
  extended by that distance; the new final weight of \<open>q\<close> is the best of the final
  weights so reached, extended likewise. No arc with label 0 is kept.
\<close>

definition eps_relax :: "StdFst \<Rightarrow> TropicalWeight list \<Rightarrow> TropicalWeight list" where
  "eps_relax f d =
     map (\<lambda>r. combine (d ! r)
            (wsum (concat (map (\<lambda>(r', st).
                map (\<lambda>a. extend (d ! r') (StdArc.weight a))
                  (filter (\<lambda>a. ilabel a = 0 \<and> nextstate a = int r) (arcs st)))
              (enumerate 0 (states f))))))
       [0..<length (states f)]"

definition eps_dist :: "StdFst \<Rightarrow> nat \<Rightarrow> TropicalWeight list" where
  "eps_dist f q =
     (eps_relax f ^^ length (states f)) (map (\<lambda>r. if r = q then One else Zero) [0..<length (states f)])"

definition rm_state :: "StdFst \<Rightarrow> nat \<Rightarrow> VectorState" where
  "rm_state f q =
     (let d = eps_dist f q in
      \<lparr>final = wsum (map (\<lambda>(r, st). extend (d ! r) (final st)) (enumerate 0 (states f))),
       arcs = concat (map (\<lambda>(r, st).
                 map (\<lambda>a. a\<lparr>weight := extend (d ! r) (StdArc.weight a)\<rparr>)
                   (filter (\<lambda>a. ilabel a \<noteq> 0) (arcs st)))
               (filter (\<lambda>(r, st). d ! r \<noteq> Zero) (enumerate 0 (states f))))\<rparr>)"

definition RmEpsilon :: "StdFst \<Rightarrow> StdFst" where
  "RmEpsilon f = f\<lparr>states := map (rm_state f) [0..<length (states f)]\<rparr>"

section \<open>Notions used in the proofs\<close>

text \<open>
  An automaton read label by label, the label 0 like any other label: the strings that
  the paths from a state spell when every label counts, and their weights. This is how
  the product constructions of sections 4.4 and 4.5 read their operands. For an automaton
  without arcs of label 0 it is what the automaton accepts.
\<close>

fun lit_accepts_from :: "StdFst \<Rightarrow> int \<Rightarrow> int list \<Rightarrow> bool" where
  "lit_accepts_from f q [] = (final_weight f q \<noteq> Zero)"
| "lit_accepts_from f q (l # ls) =
     list_ex (\<lambda>a. lit_accepts_from f (nextstate a) ls) (filter (\<lambda>a. ilabel a = l) (arcs_from f q))"

fun lit_weight_from :: "StdFst \<Rightarrow> int \<Rightarrow> int list \<Rightarrow> TropicalWeight" where
  "lit_weight_from f q [] = final_weight f q"
| "lit_weight_from f q (l # ls) =
     wsum (map (\<lambda>a. extend (StdArc.weight a) (lit_weight_from f (nextstate a) ls))
             (filter (\<lambda>a. ilabel a = l) (arcs_from f q)))"

definition lit_accepts :: "StdFst \<Rightarrow> int list \<Rightarrow> bool" where
  "lit_accepts f s = lit_accepts_from f (start f) s"

definition lit_string_weight :: "StdFst \<Rightarrow> int list \<Rightarrow> TropicalWeight" where
  "lit_string_weight f s = lit_weight_from f (start f) s"






section \<open>Example automata\<close>

text \<open>
  The automaton of the concrete scenario of section 8 of the spec (arcs 0 to 1 with label
  5 and weight 1, 1 to 2 with label 7 and weight 2, final state 2); an automaton that
  accepts any number of 5s followed by a 7; an automaton with arcs of label 0.
\<close>

definition scenario_a :: StdFst where
  "scenario_a = \<lparr>start = 0, states = [
      \<lparr>final = Infinity, arcs = [\<lparr>ilabel = 5, olabel = 5, weight = Finite 1, nextstate = 1\<rparr>]\<rparr>,
      \<lparr>final = Infinity, arcs = [\<lparr>ilabel = 7, olabel = 7, weight = Finite 2, nextstate = 2\<rparr>]\<rparr>,
      \<lparr>final = Finite 0, arcs = []\<rparr>]\<rparr>"

definition scenario_b :: StdFst where
  "scenario_b = \<lparr>start = 0, states = [
      \<lparr>final = Infinity, arcs = [\<lparr>ilabel = 5, olabel = 5, weight = Finite 3, nextstate = 0\<rparr>,
                                  \<lparr>ilabel = 7, olabel = 7, weight = Finite 1, nextstate = 1\<rparr>]\<rparr>,
      \<lparr>final = Finite 4, arcs = []\<rparr>]\<rparr>"

definition scenario_e :: StdFst where
  "scenario_e = \<lparr>start = 0, states = [
      \<lparr>final = Infinity, arcs = [\<lparr>ilabel = 0, olabel = 0, weight = Finite 1, nextstate = 1\<rparr>]\<rparr>,
      \<lparr>final = Infinity, arcs = [\<lparr>ilabel = 5, olabel = 5, weight = Finite 2, nextstate = 2\<rparr>,
                                  \<lparr>ilabel = 0, olabel = 0, weight = Finite 2, nextstate = 2\<rparr>]\<rparr>,
      \<lparr>final = Finite 0, arcs = []\<rparr>]\<rparr>"



chapter \<open>Properties\<close>

section \<open>Dispatch on the tag\<close>

lemma reinterpret_COMPACT: "type h = COMPACT \<Longrightarrow> reinterpret h = fsa h"
  by (simp add: reinterpret_def)

section \<open>Construction from an arc list\<close>

lemma add_states_eq: "add_states k f = f\<lparr>states := states f @ replicate k \<lparr>final = Zero, arcs = []\<rparr>\<rparr>"
proof (induction k arbitrary: f)
  case 0 show ?case by simp
next
  case (Suc k)
  show ?case by (simp add: Suc AddState_def replicate_app_Cons_same)
qed

lemma add_arcs_ok:
  assumes "\<forall>a \<in> set as. 0 \<le> from_state a \<and> from_state a < NumStates f"
  shows "add_arcs as f = Inr (f\<lparr>states := map (\<lambda>(i, st). st\<lparr>arcs := arcs st @ map mk_arc (filter (\<lambda>a. from_state a = int i) as)\<rparr>) (enumerate 0 (states f))\<rparr>)"
  using assms
proof (induction as arbitrary: f)
  case Nil
  have "map (\<lambda>(i, st). st) (enumerate 0 (states f)) = states f"
    by (auto intro!: nth_equalityI simp: nth_enumerate_eq)
  then show ?case by (simp)
next
  case (Cons a as)
  let ?f' = "f\<lparr>states := (states f)[nat (from_state a) := (states f ! nat (from_state a))\<lparr>arcs := arcs (states f ! nat (from_state a)) @ [mk_arc a]\<rparr>]\<rparr>"
  have r: "0 \<le> from_state a" "from_state a < NumStates f" using Cons.prems by auto
  have step: "AddArc (from_state a) (mk_arc a) f = Inr ?f'"
    using r by (simp add: AddArc_def)
  have n': "NumStates ?f' = NumStates f" by (simp add: NumStates_def)
  have ih: "add_arcs as ?f' = Inr (?f'\<lparr>states := map (\<lambda>(i, st). st\<lparr>arcs := arcs st @ map mk_arc (filter (\<lambda>a. from_state a = int i) as)\<rparr>) (enumerate 0 (states ?f'))\<rparr>)"
    by (rule Cons.IH) (use Cons.prems n' in auto)
  have eq: "map (\<lambda>(i, st). st\<lparr>arcs := arcs st @ map mk_arc (filter (\<lambda>a. from_state a = int i) as)\<rparr>) (enumerate 0 (states ?f'))
      = map (\<lambda>(i, st). st\<lparr>arcs := arcs st @ map mk_arc (filter (\<lambda>a. from_state a = int i) (a # as))\<rparr>) (enumerate 0 (states f))"
    using r by (auto intro!: nth_equalityI simp: nth_enumerate_eq nth_list_update NumStates_def)
  show ?case
    using step ih eq by simp
qed

lemma set_finals_ok:
  assumes "\<forall>s \<in> set ss. 0 \<le> s \<and> s < NumStates f"
  shows "set_finals ss f = Inr (f\<lparr>states := map (\<lambda>(i, st). st\<lparr>final := (if int i \<in> set ss then Finite 0 else final st)\<rparr>) (enumerate 0 (states f))\<rparr>)"
  using assms
proof (induction ss arbitrary: f)
  case Nil
  have "map (\<lambda>(i, st). st) (enumerate 0 (states f)) = states f"
    by (auto intro!: nth_equalityI simp: nth_enumerate_eq)
  then show ?case by simp
next
  case (Cons s ss)
  let ?f' = "f\<lparr>states := (states f)[nat s := (states f ! nat s)\<lparr>final := Finite 0\<rparr>]\<rparr>"
  have r: "0 \<le> s" "s < NumStates f" using Cons.prems by auto
  have step: "SetFinal s (Finite 0) f = Inr ?f'"
    using r by (simp add: SetFinal_def)
  have n': "NumStates ?f' = NumStates f" by (simp add: NumStates_def)
  have ih: "set_finals ss ?f' = Inr (?f'\<lparr>states := map (\<lambda>(i, st). st\<lparr>final := (if int i \<in> set ss then Finite 0 else final st)\<rparr>) (enumerate 0 (states ?f'))\<rparr>)"
    by (rule Cons.IH) (use Cons.prems n' in auto)
  have eq: "map (\<lambda>(i, st). st\<lparr>final := (if int i \<in> set ss then Finite 0 else final st)\<rparr>) (enumerate 0 (states ?f'))
      = map (\<lambda>(i, st). st\<lparr>final := (if int i \<in> set (s # ss) then Finite 0 else final st)\<rparr>) (enumerate 0 (states f))"
    using r by (auto intro!: nth_equalityI simp: nth_enumerate_eq nth_list_update NumStates_def)
  show ?case
    using step ih eq by simp
qed

lemma fsa_from_arc_list_ok:
  assumes fs: "\<forall>s \<in> set (first final_states). 0 \<le> s \<and> s < n"
    and as: "\<forall>a \<in> set (first arc_list). 0 \<le> from_state a \<and> from_state a < n"
  shows "fsa_from_arc_list n final_states arc_list =
      Inr \<lparr>type = COMPACT, fsa = Some (built (nat n) (first final_states) (first arc_list))\<rparr>"
proof -
  let ?f0 = "add_states (nat n) StdVectorFst"
  have n0: "NumStates ?f0 = int (nat n)" by (simp add: add_states_eq NumStates_def StdVectorFst_def)
  have s0: "states ?f0 = replicate (nat n) \<lparr>final = Zero, arcs = []\<rparr>"
    by (simp add: add_states_eq StdVectorFst_def)
  let ?f1 = "?f0\<lparr>states := map (\<lambda>(i, st). st\<lparr>arcs := arcs st @ map mk_arc (filter (\<lambda>a. from_state a = int i) (first arc_list))\<rparr>) (enumerate 0 (states ?f0))\<rparr>"
  have a1: "add_arcs (first arc_list) ?f0 = Inr ?f1"
    by (rule add_arcs_ok) (use as n0 in auto)
  have n1: "NumStates ?f1 = int (nat n)" using n0 by (simp add: NumStates_def)
  let ?f2 = "?f1\<lparr>states := map (\<lambda>(i, st). st\<lparr>final := (if int i \<in> set (first final_states) then Finite 0 else final st)\<rparr>) (enumerate 0 (states ?f1))\<rparr>"
  have a2: "set_finals (first final_states) ?f1 = Inr ?f2"
    by (rule set_finals_ok) (use fs n1 in auto)
  have "CompactFst (ArcSort (SetStart 0 ?f2)) = built (nat n) (first final_states) (first arc_list)"
    unfolding built_def CompactFst_def ArcSort_def SetStart_def add_states_eq StdVectorFst_def
    by (auto intro!: nth_equalityI simp: nth_enumerate_eq)
  then show ?thesis
    unfolding fsa_from_arc_list_def using a1 a2 by simp
qed








lemma insort_key_map: "insort_key f (g x) (map g xs) = map g (insort_key (\<lambda>y. f (g y)) x xs)"
  by (induction xs) auto

lemma sort_key_map: "sort_key f (map g xs) = map g (sort_key (\<lambda>y. f (g y)) xs)"
  by (induction xs) (auto simp: insort_key_map)

lemma state_arcs_block:
  "state_arcs (int i) \<lparr>final = w, arcs = map (Expand \<circ> Compact) (sort_key ilabel (map mk_arc (filter (\<lambda>a. from_state a = int i) as)))\<rparr>
     = block as i"
proof -
  have k: "(\<lambda>y. ilabel (mk_arc y)) = label" by (auto simp: mk_arc_def)
  have "map (\<lambda>a. \<lparr>from_state = int i, to_state = nextstate (Expand (Compact (mk_arc a))), label = ilabel (Expand (Compact (mk_arc a))),
          weight = StdArc.weight (Expand (Compact (mk_arc a)))\<rparr>) (block as i) = block as i"
    by (rule map_idI) (auto simp: block_def mk_arc_def Expand_def Compact_def)
  then show ?thesis
    by (simp add: state_arcs_def sort_key_map k block_def comp_def)
qed

lemma arc_list_of_built: "arc_list_of (built k ss as) = concat (map (block as) [0..<k])"
proof -
  have "map (\<lambda>(i, st). state_arcs (int i) st) (enumerate 0 (states (built k ss as))) = map (block as) [0..<k]"
    by (rule nth_equalityI) (simp_all add: built_def nth_enumerate_eq state_arcs_block)
  then show ?thesis by (simp add: arc_list_of_def)
qed

lemma mset_blocks:
  "mset (concat (map (block as) [0..<k])) = mset (filter (\<lambda>a. 0 \<le> from_state a \<and> from_state a < int k) as)"
proof (induction k)
  case 0 show ?case by simp
next
  case (Suc k)
  have "mset (filter (\<lambda>a. 0 \<le> from_state a \<and> from_state a < int (Suc k)) as)
      = mset (filter (\<lambda>a. 0 \<le> from_state a \<and> from_state a < int k) as) + mset (filter (\<lambda>a. from_state a = int k) as)"
    by (induction as) auto
  then show ?case using Suc by (simp add: block_def)
qed

lemma from_state_block: "a \<in> set (block as i) \<Longrightarrow> from_state a = int i"
  by (simp add: block_def)

lemma sorted_from_blocks: "sorted (map from_state (concat (map (block as) [0..<k])))"
proof (induction k)
  case 0 show ?case by simp
next
  case (Suc k)
  have "map from_state (block as k) = replicate (length (block as k)) (int k)"
    by (rule nth_equalityI) (auto intro: from_state_block nth_mem)
  then have "sorted (map from_state (block as k))"
    by (simp add: sorted_replicate)
  then show ?case using Suc
    by (auto simp: sorted_append dest!: from_state_block)
qed

lemma filter_blocks:
  "filter (\<lambda>a. from_state a = s) (concat (map (block as) [0..<k])) = (if 0 \<le> s \<and> s < int k then block as (nat s) else [])"
proof (induction k)
  case 0 show ?case by auto
next
  case (Suc k)
  have "filter (\<lambda>a. from_state a = s) (block as k) = (if s = int k then block as k else [])"
    by (auto simp: filter_empty_conv dest: from_state_block intro!: filter_True)
  then show ?case using Suc by auto
qed

lemma sorted_label_block: "sorted (map label (block as i))"
  by (simp add: block_def)

lemma final_weight_built:
  "final_weight (built k ss as) q = (if 0 \<le> q \<and> q < int k \<and> q \<in> set ss then One else Zero)"
  by (auto simp: final_weight_def built_def NumStates_def One_def)

lemma final_states_of_built:
  "final_states_of (built k ss as) = filter (\<lambda>q. q \<in> set ss) (map int [0..<k])"
proof -
  define g where "g = (\<lambda>i. \<lparr>final = (if int i \<in> set ss then Finite 0 else Zero),
       arcs = map (Expand \<circ> Compact) (sort_key ilabel (map mk_arc (filter (\<lambda>a. from_state a = int i) as)))\<rparr>)"
  have st: "states (built k ss as) = map g [0..<k]" by (simp add: built_def g_def)
  have e: "enumerate 0 (map g [0..<k]) = map (\<lambda>i. (i, g i)) [0..<k]"
    by (rule nth_equalityI) (simp_all add: nth_enumerate_eq)
  have p: "\<And>i. (final (g i) \<noteq> Zero) = (int i \<in> set ss)" by (simp add: g_def Zero_def)
  show ?thesis
    unfolding final_states_of_def st e by (simp add: filter_map comp_def p)
qed

text \<open>
  Claim C6. A call of \<^verbatim>\<open>fsa_from_arc_list\<close> whose state count is at least one and whose
  final-state entries and arc endpoints are all valid state ids returns a handle tagged
  \<^verbatim>\<open>COMPACT\<close> on an automaton that has that many states and the start state 0, whose
  final weight is one (0) on exactly the listed final states and zero (not final)
  everywhere else, and whose arcs are the arcs of the input list reordered: grouped by
  ascending source state and, within a source state, by ascending label.
\<close>

theorem fsa_from_arc_list_builds:
  assumes n: "1 \<le> n"
    and fs: "\<forall>s \<in> set (first final_states). 0 \<le> s \<and> s < n"
    and as: "\<forall>a \<in> set (first arc_list). 0 \<le> from_state a \<and> from_state a < n \<and> 0 \<le> to_state a \<and> to_state a < n"
  shows "\<exists>h f. fsa_from_arc_list n final_states arc_list = Inr h \<and> type h = COMPACT \<and> fsa h = Some f
      \<and> NumStates f = n
      \<and> start f = 0 \<and> fsa_initial_state h = Inr 0
      \<and> (\<forall>q. final_weight f q = (if q \<in> set (first final_states) then One else Zero))
      \<and> fsa_final_states h = Inr \<lparr>vtype = INT', first = final_states_of f\<rparr>
      \<and> set (final_states_of f) = set (first final_states)
      \<and> sorted (final_states_of f) \<and> distinct (final_states_of f)
      \<and> fsa_to_arc_list h = Inr \<lparr>vtype = ARC', first = arc_list_of f\<rparr>
      \<and> mset (arc_list_of f) = mset (first arc_list)
      \<and> sorted (map from_state (arc_list_of f))
      \<and> (\<forall>s. sorted (map label (filter (\<lambda>a. from_state a = s) (arc_list_of f))))"
proof -
  let ?f = "built (nat n) (first final_states) (first arc_list)"
  let ?h = "\<lparr>type = COMPACT, fsa = Some ?f\<rparr>"
  have r: "fsa_from_arc_list n final_states arc_list = Inr ?h"
    by (rule fsa_from_arc_list_ok) (use fs as in auto)
  have re: "reinterpret ?h = Some ?f" by (simp add: reinterpret_COMPACT)
  have ns: "NumStates ?f = n" using n by (simp add: NumStates_def built_def)
  have st: "start ?f = 0" by (simp add: built_def)
  have fw: "\<forall>q. final_weight ?f q = (if q \<in> set (first final_states) then One else Zero)"
    using fs by (auto simp: final_weight_built)
  have fl: "final_states_of ?f = filter (\<lambda>q. q \<in> set (first final_states)) (map int [0..<nat n])"
    by (rule final_states_of_built)
  have fset: "set (final_states_of ?f) = set (first final_states)"
  proof -
    have "\<And>s. s \<in> set (first final_states) \<Longrightarrow> s \<in> int ` {0..<nat n}"
      using fs by (auto simp: image_iff intro!: bexI[of _ "nat _"])
    then show ?thesis unfolding fl by auto
  qed
  have fsorted: "sorted (final_states_of ?f)"
  proof -
    have "sorted (map int [0..<nat n])"
      by (simp add: sorted_iff_nth_mono)
    then show ?thesis unfolding fl by (simp add: sorted_wrt_filter)
  qed
  have fdist: "distinct (final_states_of ?f)"
    unfolding fl by (simp add: distinct_map inj_on_def)
  have ms: "mset (arc_list_of ?f) = mset (first arc_list)"
  proof -
    have "filter (\<lambda>a. 0 \<le> from_state a \<and> from_state a < int (nat n)) (first arc_list) = first arc_list"
      using as by (auto intro!: filter_True)
    then show ?thesis by (simp add: arc_list_of_built mset_blocks)
  qed
  have so: "sorted (map from_state (arc_list_of ?f))"
    by (simp add: arc_list_of_built sorted_from_blocks)
  have sl: "\<forall>s. sorted (map label (filter (\<lambda>a. from_state a = s) (arc_list_of ?f)))"
    by (simp add: arc_list_of_built filter_blocks sorted_label_block)
  show ?thesis
    using r re ns st fw fset fsorted fdist ms so sl
    by (intro exI[of _ ?h] exI[of _ ?f]) (simp add: fsa_initial_state_def fsa_final_states_def fsa_to_arc_list_def)
qed

text \<open>The three-state example, with its arcs given out of order.\<close>

theorem fsa_from_arc_list_builds_witness:
  "\<exists>h f. fsa_from_arc_list 3 \<lparr>vtype = INT', first = [2]\<rparr>
        \<lparr>vtype = ARC', first = [\<lparr>from_state = 1, to_state = 2, label = 7, weight = Finite 2\<rparr>,
                                 \<lparr>from_state = 0, to_state = 1, label = 5, weight = Finite 1\<rparr>,
                                 \<lparr>from_state = 0, to_state = 2, label = 3, weight = Finite 4\<rparr>]\<rparr> = Inr h
      \<and> type h = COMPACT \<and> fsa h = Some f \<and> NumStates f = 3 \<and> start f = 0 \<and> fsa_initial_state h = Inr 0
      \<and> set (final_states_of f) = {2}
      \<and> mset (arc_list_of f) = {#\<lparr>from_state = 1, to_state = 2, label = 7, weight = Finite 2\<rparr>,
                                 \<lparr>from_state = 0, to_state = 1, label = 5, weight = Finite 1\<rparr>,
                                 \<lparr>from_state = 0, to_state = 2, label = 3, weight = Finite 4\<rparr>#}
      \<and> sorted (map from_state (arc_list_of f))"
  using fsa_from_arc_list_builds[of 3 "\<lparr>vtype = INT', first = [2]\<rparr>"
        "\<lparr>vtype = ARC', first = [\<lparr>from_state = 1, to_state = 2, label = 7, weight = Finite 2\<rparr>,
                                 \<lparr>from_state = 0, to_state = 1, label = 5, weight = Finite 1\<rparr>,
                                 \<lparr>from_state = 0, to_state = 2, label = 3, weight = Finite 4\<rparr>]\<rparr>"]
  by (auto simp: add_mset_commute)




section \<open>Decoding\<close>

text \<open>
  Claim C8, as stated, fails: for the zero-length byte sequence, which the reader rejects
  with a null pointer, \<^verbatim>\<open>fsa_from_string\<close> does not fail. It returns a handle: the tag
  \<^verbatim>\<open>COMPACT\<close> beside the null pointer.
\<close>

theorem fsa_from_string_rejected_stream:
  "fsa_from_string (\<lambda>bytes. None) \<lparr>vtype = CHAR', first = []\<rparr> = \<lparr>type = COMPACT, fsa = None\<rparr>"
  by (simp add: fsa_from_string_def)

text \<open>
  Claim C8, amended. For every byte sequence that the library's reader rejects by
  returning a null pointer, \<^verbatim>\<open>fsa_from_string\<close> reports no error: it returns the handle
  with tag \<^verbatim>\<open>COMPACT\<close> and a null automaton pointer. No automaton, partial or whole, is
  behind that handle: the dispatch yields the null pointer, and every accessor called on
  the handle dereferences it.
\<close>

theorem fsa_from_string_null_handle:
  assumes "Read (first binary) = None"
  shows "fsa_from_string Read binary = \<lparr>type = COMPACT, fsa = None\<rparr>
      \<and> reinterpret (fsa_from_string Read binary) = None
      \<and> fsa_initial_state (fsa_from_string Read binary) = Inl NullDereference
      \<and> fsa_final_states (fsa_from_string Read binary) = Inl NullDereference
      \<and> fsa_to_arc_list (fsa_from_string Read binary) = Inl NullDereference"
  using assms
  by (simp add: fsa_from_string_def reinterpret_COMPACT fsa_initial_state_def fsa_final_states_def
      fsa_to_arc_list_def)

text \<open>A reader that rejects every stream shorter than four bytes, on a stream of two.\<close>

theorem fsa_from_string_null_handle_witness:
  "fsa_from_string (\<lambda>bytes. if length bytes < 4 then None else Some StdVectorFst) \<lparr>vtype = CHAR', first = [1, 2]\<rparr>
      = \<lparr>type = COMPACT, fsa = None\<rparr>
    \<and> fsa_initial_state (fsa_from_string (\<lambda>bytes. if length bytes < 4 then None else Some StdVectorFst)
          \<lparr>vtype = CHAR', first = [1, 2]\<rparr>) = Inl NullDereference"
proof -
  let ?Read = "\<lambda>bytes :: 8 word list. if length bytes < 4 then None else Some StdVectorFst"
  let ?binary = "\<lparr>vtype = CHAR', first = [1, 2 :: 8 word]\<rparr>"
  have "fsa_from_string ?Read ?binary = \<lparr>type = COMPACT, fsa = None\<rparr>
      \<and> reinterpret (fsa_from_string ?Read ?binary) = None
      \<and> fsa_initial_state (fsa_from_string ?Read ?binary) = Inl NullDereference
      \<and> fsa_final_states (fsa_from_string ?Read ?binary) = Inl NullDereference
      \<and> fsa_to_arc_list (fsa_from_string ?Read ?binary) = Inl NullDereference"
    by (rule fsa_from_string_null_handle) simp
  then show ?thesis by blast
qed

section \<open>The start state\<close>

text \<open>
  Claim C9, as stated, fails: on an automaton with no state and no start state,
  \<^verbatim>\<open>fsa_initial_state\<close> does not fail. It returns \<open>-1\<close>, the library's
  \<^verbatim>\<open>kNoStateId\<close>, as it would return a state id.
\<close>

theorem fsa_initial_state_no_start:
  "fsa_initial_state \<lparr>type = COMPACT, fsa = Some \<lparr>start = -1, states = []\<rparr>\<rparr> = Inr (-1)"
  by (simp add: fsa_initial_state_def reinterpret_COMPACT)

text \<open>
  Claim C9, amended. For every handle whose tag is one of the six known tags and whose
  pointer is not null, \<^verbatim>\<open>fsa_initial_state\<close> returns the start field of the automaton
  behind it: the start state id when one is set, and otherwise the stored sentinel
  (\<open>-1\<close> for an automaton that never had a start state); it never reports an error.
\<close>

theorem fsa_initial_state_returns_start:
  assumes "reinterpret h = Some f"
  shows "fsa_initial_state h = Inr (start f)"
  using assms by (simp add: fsa_initial_state_def)

text \<open>An automaton with start state 1, and the library's fresh automaton.\<close>

theorem fsa_initial_state_returns_start_witness:
  "fsa_initial_state \<lparr>type = STDVECTOR, fsa = Some \<lparr>start = 1, states = [\<lparr>final = Zero, arcs = []\<rparr>, \<lparr>final = One, arcs = []\<rparr>]\<rparr>\<rparr>
     = Inr 1
   \<and> fsa_initial_state \<lparr>type = COMPACT, fsa = Some StdVectorFst\<rparr> = Inr kNoStateId"
  using fsa_initial_state_returns_start[of "\<lparr>type = STDVECTOR, fsa = Some \<lparr>start = 1, states = [\<lparr>final = Zero, arcs = []\<rparr>, \<lparr>final = One, arcs = []\<rparr>]\<rparr>\<rparr>"
      "\<lparr>start = 1, states = [\<lparr>final = Zero, arcs = []\<rparr>, \<lparr>final = One, arcs = []\<rparr>]\<rparr>"]
    fsa_initial_state_returns_start[of "\<lparr>type = COMPACT, fsa = Some StdVectorFst\<rparr>" StdVectorFst]
  by (simp add: reinterpret_def STDVECTOR_def COMPACT_def StdVectorFst_def)

section \<open>The tag of the handles the engine returns\<close>

text \<open>
  Claim C10. Every handle that \<^verbatim>\<open>fsa_from_string\<close>, \<^verbatim>\<open>fsa_from_arc_list\<close>,
  \<^verbatim>\<open>fsa_n_best\<close>, \<^verbatim>\<open>fsa_intersect\<close> or \<^verbatim>\<open>fsa_difference\<close> returns carries the tag
  \<^verbatim>\<open>COMPACT\<close>, whatever the library's algorithms compute, so \<^verbatim>\<open>reinterpret\<close> takes
  the \<^verbatim>\<open>COMPACT\<close> case on it and returns the handle's own pointer, never the null
  pointer of its fall-through; for the four operations other than \<^verbatim>\<open>fsa_from_string\<close>
  that pointer is not null.
\<close>

theorem engine_handles_are_COMPACT:
  "type (fsa_from_string Read binary) = COMPACT
   \<and> reinterpret (fsa_from_string Read binary) = fsa (fsa_from_string Read binary)
   \<and> (\<forall>h. fsa_from_arc_list n final_states arc_list = Inr h \<longrightarrow>
          type h = COMPACT \<and> reinterpret h = fsa h \<and> fsa h \<noteq> None)
   \<and> (\<forall>h. fsa_n_best search rm_eps a k = Inr h \<longrightarrow>
          type h = COMPACT \<and> reinterpret h = fsa h \<and> fsa h \<noteq> None)
   \<and> (\<forall>h. fsa_intersect isect a b = Inr h \<longrightarrow>
          type h = COMPACT \<and> reinterpret h = fsa h \<and> fsa h \<noteq> None)
   \<and> (\<forall>h. fsa_difference rm_weight determ differ a b = Inr h \<longrightarrow>
          type h = COMPACT \<and> reinterpret h = fsa h \<and> fsa h \<noteq> None)"
proof -
  have 1: "type (fsa_from_string Read binary) = COMPACT"
    by (simp add: fsa_from_string_def)
  have 2: "\<forall>h. fsa_from_arc_list n final_states arc_list = Inr h \<longrightarrow>
          type h = COMPACT \<and> reinterpret h = fsa h \<and> fsa h \<noteq> None"
    by (auto simp: fsa_from_arc_list_def reinterpret_COMPACT split: sum.splits)
  have 3: "\<forall>h. fsa_n_best search rm_eps a k = Inr h \<longrightarrow>
          type h = COMPACT \<and> reinterpret h = fsa h \<and> fsa h \<noteq> None"
    by (auto simp: fsa_n_best_def reinterpret_COMPACT split: option.splits)
  have 4: "\<forall>h. fsa_intersect isect a b = Inr h \<longrightarrow>
          type h = COMPACT \<and> reinterpret h = fsa h \<and> fsa h \<noteq> None"
    by (auto simp: fsa_intersect_def reinterpret_COMPACT split: option.splits)
  have 5: "\<forall>h. fsa_difference rm_weight determ differ a b = Inr h \<longrightarrow>
          type h = COMPACT \<and> reinterpret h = fsa h \<and> fsa h \<noteq> None"
    by (auto simp: fsa_difference_def reinterpret_COMPACT split: option.splits)
  show ?thesis using 1 2 3 4 5 by (simp add: reinterpret_COMPACT)
qed

text \<open>One call of each operation.\<close>

theorem engine_handles_are_COMPACT_witness:
  "type (fsa_from_string (\<lambda>bytes. None) \<lparr>vtype = CHAR', first = []\<rparr>) = COMPACT
   \<and> (\<exists>h. fsa_from_arc_list 1 \<lparr>vtype = INT', first = [0]\<rparr> \<lparr>vtype = ARC', first = []\<rparr> = Inr h
          \<and> type h = COMPACT \<and> reinterpret h = fsa h \<and> fsa h \<noteq> None)
   \<and> (\<exists>h. fsa_n_best (\<lambda>f n. f) (\<lambda>f. f) \<lparr>type = STDVECTOR, fsa = Some StdVectorFst\<rparr> 1 = Inr h
          \<and> type h = COMPACT \<and> reinterpret h = fsa h \<and> fsa h \<noteq> None)
   \<and> (\<exists>h. fsa_intersect (\<lambda>x y. x) \<lparr>type = STDVECTOR, fsa = Some StdVectorFst\<rparr>
            \<lparr>type = CONST', fsa = Some StdVectorFst\<rparr> = Inr h
          \<and> type h = COMPACT \<and> reinterpret h = fsa h \<and> fsa h \<noteq> None)
   \<and> (\<exists>h. fsa_difference (\<lambda>f. f) (\<lambda>f. f) (\<lambda>x y. x) \<lparr>type = STDVECTOR, fsa = Some StdVectorFst\<rparr>
            \<lparr>type = CONST', fsa = Some StdVectorFst\<rparr> = Inr h
          \<and> type h = COMPACT \<and> reinterpret h = fsa h \<and> fsa h \<noteq> None)"
proof -
  let ?a = "\<lparr>type = STDVECTOR, fsa = Some StdVectorFst\<rparr>"
  let ?b = "\<lparr>type = CONST', fsa = Some StdVectorFst\<rparr>"
  have ra: "reinterpret ?a = Some StdVectorFst" and rb: "reinterpret ?b = Some StdVectorFst"
    by (simp_all add: reinterpret_def STDVECTOR_def RMEPSILON_def INTERSECTION_def DIFFERENCE_def
        COMPACT_def CONST'_def)
  have e2: "\<exists>h. fsa_from_arc_list 1 \<lparr>vtype = INT', first = [0]\<rparr> \<lparr>vtype = ARC', first = []\<rparr> = Inr h"
    by (simp add: fsa_from_arc_list_def StdVectorFst_def AddState_def SetFinal_def NumStates_def)
  have e3: "\<exists>h. fsa_n_best (\<lambda>f n. f) (\<lambda>f. f) ?a 1 = Inr h"
    by (simp add: fsa_n_best_def ra)
  have e4: "\<exists>h. fsa_intersect (\<lambda>x y. x) ?a ?b = Inr h"
    by (simp add: fsa_intersect_def ra rb)
  have e5: "\<exists>h. fsa_difference (\<lambda>f. f) (\<lambda>f. f) (\<lambda>x y. x) ?a ?b = Inr h"
    by (simp add: fsa_difference_def ra rb)
  show ?thesis
    using e2 e3 e4 e5
      engine_handles_are_COMPACT[of "\<lambda>bytes. None" "\<lparr>vtype = CHAR', first = []\<rparr>" 1
        "\<lparr>vtype = INT', first = [0]\<rparr>" "\<lparr>vtype = ARC', first = []\<rparr>"
        "\<lambda>f n. f" "\<lambda>f. f" ?a 1 "\<lambda>x y. x" ?b "\<lambda>f. f" "\<lambda>f. f" "\<lambda>x y. x"]
    by blast
qed

section \<open>The weight algebra\<close>

lemma extend_commute: "extend a b = extend b a"
  by (cases a; cases b) simp_all

lemma extend_assoc: "extend (extend a b) c = extend a (extend b c)"
  by (cases a; cases b; cases c) simp_all

lemma extend_Infinity [simp]: "extend a Infinity = Infinity" "extend Infinity a = Infinity"
  by (cases a; simp)+


lemma combine_Infinity [simp]: "combine a Infinity = a"
  by (cases a) simp_all

lemma combine_commute: "combine a b = combine b a"
  by (cases a; cases b) (simp_all add: min.commute)

lemma combine_assoc: "combine (combine a b) c = combine a (combine b c)"
  by (cases a; cases b; cases c) (simp_all add: min.assoc)

lemma extend_combine: "extend c (combine a b) = combine (extend c a) (extend c b)"
  by (cases a; cases b; cases c) (simp_all add: min_add_distrib_right)

lemma wsum_Nil [simp]: "wsum [] = Infinity" by (simp add: wsum_def Zero_def)

lemma wsum_Cons [simp]: "wsum (w # ws) = combine w (wsum ws)" by (simp add: wsum_def)

lemma wsum_append: "wsum (xs @ ys) = combine (wsum xs) (wsum ys)"
  by (induction xs) (simp_all add: combine_assoc)

lemma wsum_extend: "wsum (map (\<lambda>x. extend c (g x)) xs) = extend c (wsum (map g xs))"
  by (induction xs) (simp_all add: extend_combine)

lemma wsum_extend_right: "wsum (map (\<lambda>x. extend (g x) c) xs) = extend (wsum (map g xs)) c"
  using wsum_extend[of c g xs] by (simp add: extend_commute)

lemma wsum_concat: "wsum (concat xss) = wsum (map wsum xss)"
  by (induction xss) (simp_all add: wsum_append)



section \<open>Discovery ends, and what it returns is closed\<close>








section \<open>The compact copy keeps the language\<close>









section \<open>Automata without arcs of label 0\<close>









section \<open>The example automata, evaluated\<close>

lemmas eval_defs = lit_accepts_def lit_string_weight_def arcs_from_def final_weight_def NumStates_def Zero_def One_def
  scenario_a_def scenario_b_def scenario_e_def



lemma RmEpsilon_scenario_e:
  "RmEpsilon scenario_e = \<lparr>start = 0, states = [
      \<lparr>final = Finite 3, arcs = [\<lparr>ilabel = 5, olabel = 5, weight = Finite 3, nextstate = 2\<rparr>]\<rparr>,
      \<lparr>final = Finite 2, arcs = [\<lparr>ilabel = 5, olabel = 5, weight = Finite 2, nextstate = 2\<rparr>]\<rparr>,
      \<lparr>final = Finite 0, arcs = []\<rparr>]\<rparr>"
  by (simp add: RmEpsilon_def rm_state_def eps_dist_def eps_relax_def scenario_e_def Let_def
      upt_rec[of 0] upt_rec[of 1] upt_rec[of 2] upt_rec[of 3] numeral_3_eq_3 One_def Zero_def enumerate_eq_zip)

section \<open>Intersection\<close>






















section \<open>Difference\<close>




































section \<open>Epsilon removal after the search\<close>

lemma rm_state_no_epsilon: "a \<in> set (arcs (rm_state f q)) \<Longrightarrow> ilabel a \<noteq> 0"
  by (auto simp: rm_state_def Let_def)

lemma RmEpsilon_no_epsilon:
  "st \<in> set (states (RmEpsilon f)) \<Longrightarrow> a \<in> set (arcs st) \<Longrightarrow> ilabel a \<noteq> 0"
  by (auto simp: RmEpsilon_def dest: rm_state_no_epsilon)

lemma arc_list_of_labels:
  "x \<in> set (arc_list_of f) \<Longrightarrow> \<exists>st \<in> set (states f). \<exists>a \<in> set (arcs st). label x = ilabel a"
  by (fastforce simp: arc_list_of_def state_arcs_def in_set_enumerate_eq intro: nth_mem)

text \<open>
  Claim C5. Whatever automaton the search returns, the automaton behind the handle that
  \<^verbatim>\<open>fsa_n_best\<close> returns has no arc whose label is 0: neither among the arcs that
  \<^verbatim>\<open>fsa_to_arc_list\<close> lists, nor, as input or output label, among the arcs of its
  states.
\<close>

theorem fsa_n_best_epsilon_free:
  assumes "reinterpret a = Some x"
  shows "\<exists>h f. fsa_n_best shortest RmEpsilon a n = Inr h \<and> fsa h = Some f
      \<and> fsa_to_arc_list h = Inr \<lparr>vtype = ARC', first = arc_list_of f\<rparr>
      \<and> list_all (\<lambda>arc. label arc \<noteq> 0) (arc_list_of f)
      \<and> list_all (\<lambda>st. list_all (\<lambda>arc. ilabel arc \<noteq> 0 \<and> olabel arc \<noteq> 0) (arcs st)) (states f)"
proof -
  let ?f = "CompactFst (RmEpsilon (shortest x n))"
  let ?h = "\<lparr>type = COMPACT, fsa = Some ?f\<rparr>"
  have 1: "fsa_n_best shortest RmEpsilon a n = Inr ?h"
    using assms by (simp add: fsa_n_best_def)
  have 2: "list_all (\<lambda>st. list_all (\<lambda>arc. ilabel arc \<noteq> 0 \<and> olabel arc \<noteq> 0) (arcs st)) (states ?f)"
    by (auto simp: list_all_iff CompactFst_def Expand_def Compact_def dest: RmEpsilon_no_epsilon)
  have 3: "list_all (\<lambda>arc. label arc \<noteq> 0) (arc_list_of ?f)"
    using 2 by (auto simp: list_all_iff dest!: arc_list_of_labels)
  show ?thesis
    using 1 2 3 by (simp add: fsa_to_arc_list_def reinterpret_COMPACT)
qed

text \<open>A search that returns its input, on the automaton with arcs of label 0.\<close>

theorem fsa_n_best_epsilon_free_witness:
  "\<exists>h f. fsa_n_best (\<lambda>f n. f) RmEpsilon \<lparr>type = COMPACT, fsa = Some scenario_e\<rparr> 1 = Inr h \<and> fsa h = Some f
      \<and> list_all (\<lambda>arc. label arc \<noteq> 0) (arc_list_of f)"
proof -
  have r: "reinterpret \<lparr>type = COMPACT, fsa = Some scenario_e\<rparr> = Some scenario_e"
    by (simp add: reinterpret_COMPACT)
  from fsa_n_best_epsilon_free[OF r, of "\<lambda>f n. f" 1] show ?thesis by auto
qed

end
